theory Spec2Isabelle
  imports Complex_Main
begin

section \<open>Cosine noise schedule and forward corruption of train.py\<close>

text \<open>
  The development embeds the numerical core of
  \<^verbatim>\<open>experiments/synthesizer-img/train.py\<close>: the function \<^verbatim>\<open>cosine_alphas_bar\<close>,
  the flipped schedule \<^verbatim>\<open>alphas\<close>, the lookup \<^verbatim>\<open>alphas[rand_index]\<close>, the mixing
  \<^verbatim>\<open>noise_input\<close> and the epoch loop with its resume conditional.

  Tensor entries are modelled as exact reals: rounding of 32-bit floats is not part of
  the model. Python integers are \<open>int\<close>. A one-dimensional tensor is a list; a batch of
  images is a list of samples, each sample being the list of its entries (the layout of
  channels, rows and columns plays no role in an elementwise operation). Every place
  where the embedded lines raise is a branch returning \<open>Inl\<close>.

  Two operations of torch produce \<^verbatim>\<open>nan\<close> or \<^verbatim>\<open>inf\<close> instead of raising: a division by
  zero and the square root of a negative number. The reals have no such values, so the
  theorems below that speak about values carry the hypotheses (\<open>0 < s\<close>, entries of the
  schedule) under which no denominator vanishes and no square root has a negative
  argument; this is shown, not assumed, for the values the schedule produces.
\<close>

subsection \<open>Errors\<close>

datatype error = IndexError | RuntimeError | ZeroDivisionError | FileNotFoundError

subsection \<open>torch.linspace\<close>

text \<open>
  \<^verbatim>\<open>torch.linspace(start, end, steps)\<close> returns the \<open>steps\<close> values
  \<open>start, start + (end - start)/(steps - 1), \<dots>, end\<close>; a single step gives \<open>[start]\<close>,
  zero steps the empty tensor, and a negative number of steps raises a RuntimeError.
\<close>

definition linspace :: "real \<Rightarrow> real \<Rightarrow> int \<Rightarrow> error + real list" where
  "linspace start stop steps =
     (if steps < 0 then Inl RuntimeError
      else if steps = 1 then Inr [start]
      else Inr (map (\<lambda>i. start + real i * ((stop - start) / real_of_int (steps - 1)))
                  [0..<nat steps]))"

subsection \<open>Slicing and flipping\<close>

text \<open>
  \<^verbatim>\<open>xs[:n]\<close>: the first \<open>n\<close> entries for \<open>n \<ge> 0\<close>, all but the last \<open>-n\<close> for a
  negative \<open>n\<close>.
\<close>

definition slice_to :: "'a list \<Rightarrow> int \<Rightarrow> 'a list" where
  "slice_to xs n = (if 0 \<le> n then take (nat n) xs else take (length xs - nat (- n)) xs)"

text \<open>\<^verbatim>\<open>torch.flip(xs, (0,))\<close> on a one-dimensional tensor.\<close>

definition flip :: "'a list \<Rightarrow> 'a list" where
  "flip xs = rev xs"

subsection \<open>cosine\_alphas\_bar\<close>

text \<open>
  \<^verbatim>\<open>
  def cosine_alphas_bar(timesteps, s=0.008):
      steps = timesteps + 1
      x = torch.linspace(0, steps, steps)
      alphas_bar = torch.cos(((x / steps) + s) / (1 + s) * torch.pi * 0.5) ** 2
      alphas_bar = alphas_bar / alphas_bar[0]
      return alphas_bar[:timesteps]
  \<close>
  \<^verbatim>\<open>alphas_bar[0]\<close> raises IndexError on the empty tensor.
\<close>

definition cosine_alphas_bar :: "int \<Rightarrow> real \<Rightarrow> error + real list" where
  "cosine_alphas_bar timesteps s =
     (let steps = timesteps + 1 in
      case linspace 0 (real_of_int steps) steps of
        Inl e \<Rightarrow> Inl e
      | Inr x \<Rightarrow>
          (let alphas_bar =
                 map (\<lambda>v. (cos (((v / real_of_int steps) + s) / (1 + s) * pi * 0.5))\<^sup>2) x
           in case alphas_bar of
                [] \<Rightarrow> Inl IndexError
              | a0 # _ \<Rightarrow> Inr (slice_to (map (\<lambda>v. v / a0) alphas_bar) timesteps)))"

text \<open>The default value of the parameter \<open>s\<close>.\<close>

definition default_s :: real where
  "default_s = 0.008"

text \<open>
  \<^verbatim>\<open>alphas = torch.flip(cosine_alphas_bar(params.timesteps), (0,))\<close>; the value of
  \<^verbatim>\<open>params.timesteps\<close> is a parameter.
\<close>

definition alphas :: "int \<Rightarrow> error + real list" where
  "alphas timesteps =
     (case cosine_alphas_bar timesteps default_s of
        Inl e \<Rightarrow> Inl e
      | Inr sched \<Rightarrow> Inr (flip sched))"

subsection \<open>cosine\_alphas\_bar as a call in the running process\<close>




subsection \<open>The lookup alphas[rand\_index]\<close>

text \<open>
  Indexing a one-dimensional tensor of size \<open>n\<close> with a tensor of integers: every index
  must lie in \<open>[-n, n)\<close>, a negative index \<open>i\<close> reads entry \<open>n + i\<close>, and any other
  index raises IndexError.
\<close>

definition tensor_index :: "real list \<Rightarrow> int list \<Rightarrow> error + real list" where
  "tensor_index xs idx =
     (let n = int (length xs) in
      if list_all (\<lambda>i. - n \<le> i \<and> i < n) idx
      then Inr (map (\<lambda>i. xs ! nat (if i < 0 then n + i else i)) idx)
      else Inl IndexError)"

subsection \<open>The corruption step\<close>

text \<open>
  \<^verbatim>\<open>
  bs = images.shape[0]
  alpha_batch = alphas[rand_index].reshape(bs, 1, 1, 1)
  noise_input = alpha_batch.sqrt() * images + (1 - alpha_batch).sqrt() * random_sample
  \<close>
  The two weights are \<^verbatim>\<open>alpha_batch.sqrt()\<close> and \<^verbatim>\<open>(1 - alpha_batch).sqrt()\<close>. After the
  reshape to \<open>(bs, 1, 1, 1)\<close> the \<open>b\<close>-th weight multiplies every entry of the \<open>b\<close>-th
  sample.
\<close>

definition signal_weight :: "real \<Rightarrow> real" where
  "signal_weight a = sqrt a"

definition noise_weight :: "real \<Rightarrow> real" where
  "noise_weight a = sqrt (1 - a)"

definition noise_input :: "real list \<Rightarrow> real list list \<Rightarrow> real list list \<Rightarrow> real list list" where
  "noise_input alpha_batch images random_sample =
     map (\<lambda>(a, img, eps).
            map (\<lambda>(x, n). signal_weight a * x + noise_weight a * n) (zip img eps))
         (zip alpha_batch (zip images random_sample))"

definition same_shape :: "real list list \<Rightarrow> real list list \<Rightarrow> bool" where
  "same_shape xs ys = (map length xs = map length ys)"

text \<open>
  The reshape raises a RuntimeError unless the lookup returned \<open>bs\<close> entries. In the
  script \<open>random_sample\<close> is \<^verbatim>\<open>torch.randn_like(images)\<close> and has the shape of \<open>images\<close>;
  for tensors of different shapes the elementwise operations raise a RuntimeError
  (broadcasting between unequal shapes is not modelled).
\<close>

definition corruption_step ::
  "real list \<Rightarrow> int list \<Rightarrow> real list list \<Rightarrow> real list list \<Rightarrow> error + real list list" where
  "corruption_step alphas_t rand_index images random_sample =
     (let bs = length images in
      case tensor_index alphas_t rand_index of
        Inl e \<Rightarrow> Inl e
      | Inr alpha_batch \<Rightarrow>
          if length alpha_batch \<noteq> bs then Inl RuntimeError
          else if \<not> same_shape images random_sample then Inl RuntimeError
          else Inr (noise_input alpha_batch images random_sample))"

subsection \<open>The epoch loop\<close>

text \<open>
  The network, the optimizer, the learning-rate scheduler, the data loaders and the
  random number generator are collaborators outside the script; they are parameters of
  the model. \<open>fit\<close> stands for the forward pass, the L1 loss, \<^verbatim>\<open>zero_grad\<close>,
  \<^verbatim>\<open>backward\<close> and \<^verbatim>\<open>optimizer.step()\<close> of one batch and returns \<^verbatim>\<open>loss.item()\<close>
  with the updated network and optimizer; \<open>assess\<close> is the forward pass and loss under
  \<^verbatim>\<open>torch.no_grad()\<close>. The collaborators are total functions: an exception raised inside
  one of them is not modelled.
\<close>

type_synonym batch = "real list list \<times> real list list"

record ('m, 'o, 'l, 'r) collaborators =
  train_dataloader :: "'r \<Rightarrow> batch list \<times> 'r"
  test_dataloader :: "'r \<Rightarrow> batch list \<times> 'r"
  randint :: "'r \<Rightarrow> int \<Rightarrow> nat \<Rightarrow> int list \<times> 'r"
  randn_like :: "'r \<Rightarrow> real list list \<Rightarrow> real list list \<times> 'r"
  fit :: "'m \<Rightarrow> 'o \<Rightarrow> real list list \<Rightarrow> int list \<Rightarrow> real list list \<Rightarrow> real list list
            \<Rightarrow> real \<times> 'm \<times> 'o"
  assess :: "'m \<Rightarrow> real list list \<Rightarrow> int list \<Rightarrow> real list list \<Rightarrow> real list list \<Rightarrow> real"
  lr_step :: "'l \<Rightarrow> 'o \<Rightarrow> 'l \<times> 'o"
  set_train :: "'m \<Rightarrow> 'm"
  set_eval :: "'m \<Rightarrow> 'm"

text \<open>The lines the script prints, and the postfix it sets on the progress bar.\<close>

datatype message =
    PickingUp
  | WillResume int
  | EpochRunning int
  | LossPostfix real
  | ValidationLoss real
  | ModelSaved
  | SkippingEpoch int

text \<open>
  What the loop reads and writes: the network \<open>u_net\<close>, the optimizer, the scheduler,
  the generator, \<open>loss_log\<close>, \<open>mean_loss\<close>, the file \<^verbatim>\<open>diffusion_checkpoint.pth\<close>
  (epoch, network, optimizer) and the printed lines.
\<close>

record ('m, 'o, 'l, 'r) run_state =
  u_net :: 'm
  optimizer :: 'o
  lr_schedule :: 'l
  rng :: 'r
  loss_log :: "real list"
  mean_loss :: real
  checkpoint_file :: "(int \<times> 'm \<times> 'o) option"
  printed :: "message list"

text \<open>One iteration of the inner training loop (lines 116 to 142).\<close>

definition train_iteration ::
  "('m, 'o, 'l, 'r) collaborators \<Rightarrow> int \<Rightarrow> real list \<Rightarrow> ('m, 'o, 'l, 'r) run_state \<Rightarrow> batch
     \<Rightarrow> error + ('m, 'o, 'l, 'r) run_state" where
  "train_iteration c timesteps alphas_t st b =
     (case b of (images, labels) \<Rightarrow>
        (case randint c (rng st) timesteps (length images) of (rand_index, r1) \<Rightarrow>
           (case randn_like c r1 images of (random_sample, r2) \<Rightarrow>
              (case corruption_step alphas_t rand_index images random_sample of
                 Inl e \<Rightarrow> Inl e
               | Inr noisy \<Rightarrow>
                   (case fit c (u_net st) (optimizer st) noisy rand_index labels images of
                      (loss, m, opt) \<Rightarrow>
                        Inr (st\<lparr>u_net := m, optimizer := opt, rng := r2,
                                loss_log := loss_log st @ [loss],
                                mean_loss := mean_loss st + loss\<rparr>))))))"

fun train_loop ::
  "('m, 'o, 'l, 'r) collaborators \<Rightarrow> int \<Rightarrow> real list \<Rightarrow> ('m, 'o, 'l, 'r) run_state \<Rightarrow> batch list
     \<Rightarrow> error + ('m, 'o, 'l, 'r) run_state" where
  "train_loop c timesteps alphas_t st [] = Inr st"
| "train_loop c timesteps alphas_t st (b # bs) =
     (case train_iteration c timesteps alphas_t st b of
        Inl e \<Rightarrow> Inl e
      | Inr st' \<Rightarrow> train_loop c timesteps alphas_t st' bs)"

text \<open>
  The validation loop (lines 149 to 162): it accumulates \<open>val_loss\<close> and draws from the
  generator, and changes nothing else.
\<close>

fun validation_loop ::
  "('m, 'o, 'l, 'r) collaborators \<Rightarrow> int \<Rightarrow> real list \<Rightarrow> 'm \<Rightarrow> real \<times> 'r \<Rightarrow> batch list
     \<Rightarrow> error + real \<times> 'r" where
  "validation_loop c timesteps alphas_t m (val_loss, r) [] = Inr (val_loss, r)"
| "validation_loop c timesteps alphas_t m (val_loss, r) ((images, labels) # bs) =
     (case randint c r timesteps (length images) of (rand_index, r1) \<Rightarrow>
        (case randn_like c r1 images of (random_sample, r2) \<Rightarrow>
           (case corruption_step alphas_t rand_index images random_sample of
              Inl e \<Rightarrow> Inl e
            | Inr noisy \<Rightarrow>
                validation_loop c timesteps alphas_t m
                  (val_loss + assess c m noisy rand_index labels images, r2) bs)))"

text \<open>
  The branch \<^verbatim>\<open>epoch >= resume_epoch\<close> (lines 111 to 171). The two divisions by the
  number of batches are Python divisions and raise ZeroDivisionError on an empty loader.
\<close>

definition run_epoch ::
  "('m, 'o, 'l, 'r) collaborators \<Rightarrow> int \<Rightarrow> real list \<Rightarrow> ('m, 'o, 'l, 'r) run_state \<Rightarrow> int
     \<Rightarrow> error + ('m, 'o, 'l, 'r) run_state" where
  "run_epoch c timesteps alphas_t st epoch =
     (case train_dataloader c (rng st) of (train_batches, r1) \<Rightarrow>
        (if length train_batches = 0 then Inl ZeroDivisionError
         else
           (case train_loop c timesteps alphas_t
                   (st\<lparr>printed := printed st @
                          [EpochRunning epoch,
                           LossPostfix (mean_loss st / real (length train_batches))],
                       mean_loss := 0, rng := r1\<rparr>)
                   train_batches of
              Inl e \<Rightarrow> Inl e
            | Inr st2 \<Rightarrow>
                (case lr_step c (lr_schedule st2) (optimizer st2) of (l, opt) \<Rightarrow>
                   (case test_dataloader c (rng st2) of (test_batches, r3) \<Rightarrow>
                      (case validation_loop c timesteps alphas_t (set_eval c (u_net st2))
                              (0, r3) test_batches of
                         Inl e \<Rightarrow> Inl e
                       | Inr (val_loss, r4) \<Rightarrow>
                           (if length test_batches = 0 then Inl ZeroDivisionError
                            else Inr (st2\<lparr>u_net := set_eval c (u_net st2),
                                          optimizer := opt, lr_schedule := l, rng := r4,
                                          checkpoint_file :=
                                            Some (epoch, set_eval c (u_net st2), opt),
                                          printed := printed st2 @
                                            [ValidationLoss
                                               (val_loss / real (length test_batches)),
                                             ModelSaved]\<rparr>))))))))"

text \<open>
  The body of \<^verbatim>\<open>for epoch in pbar\<close> (lines 110 to 173):
  \<^verbatim>\<open>
  if epoch >= resume_epoch:
      ...
  else:
      print("Skipping epoch " + str(epoch))
  \<close>
\<close>

definition epoch_body ::
  "('m, 'o, 'l, 'r) collaborators \<Rightarrow> int \<Rightarrow> real list \<Rightarrow> int \<Rightarrow> ('m, 'o, 'l, 'r) run_state \<Rightarrow> int
     \<Rightarrow> error + ('m, 'o, 'l, 'r) run_state" where
  "epoch_body c timesteps alphas_t resume_epoch st epoch =
     (if epoch \<ge> resume_epoch then run_epoch c timesteps alphas_t st epoch
      else Inr (st\<lparr>printed := printed st @ [SkippingEpoch epoch]\<rparr>))"

fun epoch_loop ::
  "('m, 'o, 'l, 'r) collaborators \<Rightarrow> int \<Rightarrow> real list \<Rightarrow> int \<Rightarrow> ('m, 'o, 'l, 'r) run_state
     \<Rightarrow> int list \<Rightarrow> error + ('m, 'o, 'l, 'r) run_state" where
  "epoch_loop c timesteps alphas_t resume_epoch st [] = Inr st"
| "epoch_loop c timesteps alphas_t resume_epoch st (epoch # es) =
     (case epoch_body c timesteps alphas_t resume_epoch st epoch of
        Inl e \<Rightarrow> Inl e
      | Inr st' \<Rightarrow> epoch_loop c timesteps alphas_t resume_epoch st' es)"

text \<open>\<^verbatim>\<open>trange(n)\<close> iterates over \<open>0, \<dots>, n - 1\<close>, and over nothing when \<open>n \<le> 0\<close>.\<close>

definition trange :: "int \<Rightarrow> int list" where
  "trange n = map int [0..<nat n]"

text \<open>
  The script from line 85 to the end of the loop:
  \<^verbatim>\<open>
  resume_epoch = -1
  if params.do_reload:
      print("Picking up where we left off from saved checkpoint")
      checkpoint = torch.load("diffusion_checkpoint.pth", ...)
      u_net.load_state_dict(checkpoint["model_state_dict"])
      optimizer.load_state_dict(checkpoint["optimizer_state_dict"])
      resume_epoch = checkpoint["epoch"]
      print("We will resume at epoch " + str(resume_epoch))
  loss_log = []
  mean_loss = 0
  alphas = torch.flip(cosine_alphas_bar(params.timesteps), (0,))
  pbar = trange(params.train_epoch, ...)
  u_net.train()
  for epoch in pbar: ...
  \<close>
  Loading a file that does not exist raises FileNotFoundError.
\<close>

definition reload ::
  "bool \<Rightarrow> ('m, 'o, 'l, 'r) run_state \<Rightarrow> error + int \<times> ('m, 'o, 'l, 'r) run_state" where
  "reload do_reload st =
     (if do_reload then
        (case checkpoint_file st of
           None \<Rightarrow> Inl FileNotFoundError
         | Some (epoch, m, opt) \<Rightarrow>
             Inr (epoch, st\<lparr>u_net := m, optimizer := opt,
                            printed := printed st @ [PickingUp, WillResume epoch]\<rparr>))
      else Inr (- 1, st))"

definition training ::
  "('m, 'o, 'l, 'r) collaborators \<Rightarrow> int \<Rightarrow> int \<Rightarrow> bool \<Rightarrow> ('m, 'o, 'l, 'r) run_state
     \<Rightarrow> error + ('m, 'o, 'l, 'r) run_state" where
  "training c timesteps train_epoch do_reload st0 =
     (case reload do_reload st0 of
        Inl e \<Rightarrow> Inl e
      | Inr (resume_epoch, st1) \<Rightarrow>
          (case alphas timesteps of
             Inl e \<Rightarrow> Inl e
           | Inr alphas_t \<Rightarrow>
               epoch_loop c timesteps alphas_t resume_epoch
                 (st1\<lparr>loss_log := [], mean_loss := 0, u_net := set_train c (u_net st1)\<rparr>)
                 (trange train_epoch)))"

subsection \<open>The algorithm as the specification words it\<close>

text \<open>
  The specification's description of the schedule: \<open>steps = timesteps + 1\<close> evenly spaced
  sample points over \<open>[0, steps]\<close>; for each point \<open>x\<close> the value
  \<open>cos\<^sup>2(((x/steps + s)/(1 + s)) \<cdot> (\<pi>/2))\<close>; every entry divided by the first; the first
  \<open>timesteps\<close> entries returned.
\<close>

definition evenly_spaced :: "nat \<Rightarrow> real \<Rightarrow> real \<Rightarrow> real list" where
  "evenly_spaced n a b = map (\<lambda>i. a + (b - a) * real i / real (n - 1)) [0..<n]"

definition spec_value :: "real \<Rightarrow> real \<Rightarrow> real \<Rightarrow> real" where
  "spec_value steps s x = (cos (((x / steps + s) / (1 + s)) * (pi / 2)))\<^sup>2"

definition build_schedule_spec :: "nat \<Rightarrow> real \<Rightarrow> real list" where
  "build_schedule_spec timesteps s =
     (let steps = timesteps + 1;
          points = evenly_spaced steps 0 (real steps);
          vals = map (spec_value (real steps) s) points;
          normalized = map (\<lambda>v. v / hd vals) vals
      in take timesteps normalized)"

subsection \<open>A concrete instance of the collaborators\<close>

text \<open>
  A small instance on which the loop can be run: each loader yields one batch holding
  one sample with one entry, the network is the number of optimizer steps taken so far,
  every loss is \<open>1\<close>, and the generator always draws index \<open>0\<close> and returns the batch
  itself as noise.
\<close>

definition counting_collaborators :: "(nat, unit, unit, unit) collaborators" where
  "counting_collaborators =
     \<lparr>train_dataloader = (\<lambda>r. ([([[0]], [[0]])], r)),
      test_dataloader = (\<lambda>r. ([([[0]], [[0]])], r)),
      randint = (\<lambda>r high bs. (replicate bs 0, r)),
      randn_like = (\<lambda>r x. (x, r)),
      fit = (\<lambda>m opt noisy idx labels images. (1, Suc m, opt)),
      assess = (\<lambda>m noisy idx labels images. 1),
      lr_step = (\<lambda>l opt. (l, opt)),
      set_train = (\<lambda>m. m),
      set_eval = (\<lambda>m. m)\<rparr>"

definition fresh_state :: "(nat, unit, unit, unit) run_state" where
  "fresh_state =
     \<lparr>u_net = 0, optimizer = (), lr_schedule = (), rng = (), loss_log = [], mean_loss = 0,
      checkpoint_file = None, printed = []\<rparr>"

subsection \<open>The schedule in closed form\<close>

text \<open>The curve sampled by the schedule, as a function of the fraction \<open>u = x / steps\<close>.\<close>

definition curve :: "real \<Rightarrow> real \<Rightarrow> real" where
  "curve s u = (cos ((u + s) / (1 + s) * pi * 0.5))\<^sup>2"

text \<open>The entries of the schedule written with the curve.\<close>

definition closed_schedule :: "int \<Rightarrow> real \<Rightarrow> real list" where
  "closed_schedule T s = map (\<lambda>i. curve s (real i / real_of_int T) / curve s 0) [0..<nat T]"

lemma linspace_points:
  assumes "0 < T"
  shows "linspace 0 (real_of_int (T + 1)) (T + 1) =
         Inr (map (\<lambda>i. real i * (real_of_int (T + 1) / real_of_int T)) [0..<nat (T + 1)])"
  using assms by (simp add: linspace_def)

lemma point_fraction:
  assumes "0 < T"
  shows "real i * (real_of_int (T + 1) / real_of_int T) / real_of_int (T + 1) = real i / real_of_int T"
proof -
  have "real_of_int (T + 1) \<noteq> 0"
    using assms by (simp del: of_int_add)
  then show ?thesis
    by (simp del: of_int_add)
qed

lemma cosine_alphas_bar_closed:
  assumes "0 < T"
  shows "cosine_alphas_bar T s =
         Inr (map (\<lambda>i. curve s (real i / real_of_int T) / curve s 0) [0..<nat T])"
proof -
  let ?pts = "map (\<lambda>i. real i * (real_of_int (T + 1) / real_of_int T)) [0..<nat (T + 1)]"
  let ?ab = "map (\<lambda>v. (cos (((v / real_of_int (T + 1)) + s) / (1 + s) * pi * 0.5))\<^sup>2) ?pts"
  have ab: "?ab = map (\<lambda>i. curve s (real i / real_of_int T)) [0..<nat (T + 1)]"
    using assms by (simp add: curve_def point_fraction del: of_int_add)
  have up: "[0..<nat (T + 1)] = 0 # [1..<nat (T + 1)]"
    using assms by (simp add: upt_conv_Cons)
  have hd: "?ab = curve s 0 # map (\<lambda>i. curve s (real i / real_of_int T)) [1..<nat (T + 1)]"
    unfolding ab by (subst up) simp
  have tk: "take (nat T) (map (\<lambda>v. v / curve s 0) ?ab) =
            map (\<lambda>i. curve s (real i / real_of_int T) / curve s 0) [0..<nat T]"
    unfolding ab using assms by (simp add: take_map o_def nat_add_distrib)
  have "cosine_alphas_bar T s = Inr (slice_to (map (\<lambda>v. v / curve s 0) ?ab) T)"
    unfolding cosine_alphas_bar_def Let_def linspace_points [OF assms]
    by (simp only: sum.case hd list.case)
  then show ?thesis
    using assms tk by (simp add: slice_to_def)
qed

lemma angle_bounds:
  assumes "0 < s" "0 \<le> u" "u < 1"
  shows "0 < (u + s) / (1 + s) * pi * 0.5" and "(u + s) / (1 + s) * pi * 0.5 < pi / 2"
proof -
  define q where "q = (u + s) / (1 + s)"
  have q0: "0 < q"
    unfolding q_def using assms by simp
  have q1: "q < 1"
    unfolding q_def using assms by simp
  have "0 < q * pi"
    using q0 pi_gt_zero by (rule mult_pos_pos)
  then have "0 < q * pi * 0.5"
    by simp
  then show "0 < (u + s) / (1 + s) * pi * 0.5"
    unfolding q_def .
  have "q * pi < 1 * pi"
    using q1 pi_gt_zero by (rule mult_strict_right_mono)
  then have "q * pi * 0.5 < pi / 2"
    by simp
  then show "(u + s) / (1 + s) * pi * 0.5 < pi / 2"
    unfolding q_def .
qed

lemma cos_angle_pos:
  assumes "0 < s" "0 \<le> u" "u < 1"
  shows "0 < cos ((u + s) / (1 + s) * pi * 0.5)"
  using angle_bounds [OF assms] by (intro cos_gt_zero) simp_all

lemma curve_pos:
  assumes "0 < s" "0 \<le> u" "u < 1"
  shows "0 < curve s u"
  unfolding curve_def using cos_angle_pos [OF assms] by simp

lemma curve_antimono:
  assumes "0 < s" "0 \<le> u" "u \<le> v" "v < 1"
  shows "curve s v \<le> curve s u"
proof -
  have le: "(u + s) / (1 + s) * pi * 0.5 \<le> (v + s) / (1 + s) * pi * 0.5"
    using assms by (simp add: divide_right_mono)
  have u0: "0 \<le> (u + s) / (1 + s) * pi * 0.5"
    using angle_bounds(1) [of s u] assms by simp
  have "(v + s) / (1 + s) * pi * 0.5 < pi / 2"
    using assms by (intro angle_bounds(2)) simp_all
  moreover have "pi / 2 \<le> pi"
    using pi_gt_zero by simp
  ultimately have v1: "(v + s) / (1 + s) * pi * 0.5 \<le> pi"
    by (rule less_imp_le [OF less_le_trans])
  have "cos ((v + s) / (1 + s) * pi * 0.5) \<le> cos ((u + s) / (1 + s) * pi * 0.5)"
    using u0 le v1 by (rule cos_monotone_0_pi_le)
  moreover have "0 \<le> cos ((v + s) / (1 + s) * pi * 0.5)"
    using cos_angle_pos [of s v] assms by simp
  ultimately show ?thesis
    unfolding curve_def by (rule power_mono)
qed

lemma cosine_alphas_bar_eq:
  assumes "0 < T"
  shows "cosine_alphas_bar T s = Inr (closed_schedule T s)"
  unfolding closed_schedule_def using assms by (rule cosine_alphas_bar_closed)

lemma closed_length: "length (closed_schedule T s) = nat T"
  by (simp add: closed_schedule_def)

lemma closed_nth:
  assumes "i < nat T"
  shows "closed_schedule T s ! i = curve s (real i / real_of_int T) / curve s 0"
  using assms by (simp add: closed_schedule_def)

lemma fraction_range:
  assumes "i < nat T"
  shows "0 \<le> real i / real_of_int T" and "real i / real_of_int T < 1"
proof -
  have T: "0 < real_of_int T" and iT: "real i < real_of_int T"
    using assms by linarith+
  show "0 \<le> real i / real_of_int T"
    using T by simp
  show "real i / real_of_int T < 1"
    using T iT by simp
qed

lemma curve0_pos:
  assumes "0 < s"
  shows "0 < curve s 0"
  using assms by (intro curve_pos) simp_all

lemma closed_first:
  assumes "0 < T" "0 < s"
  shows "closed_schedule T s ! 0 = 1"
proof -
  have "0 < nat T"
    using assms by simp
  then have "closed_schedule T s ! 0 = curve s 0 / curve s 0"
    by (simp add: closed_nth)
  then show ?thesis
    using curve0_pos [OF assms(2)] by simp
qed

lemma closed_mono:
  assumes "0 < s" "i \<le> j" "j < nat T"
  shows "closed_schedule T s ! j \<le> closed_schedule T s ! i"
proof -
  have T: "0 < real_of_int T"
    using assms by linarith
  have le: "real i / real_of_int T \<le> real j / real_of_int T"
    using assms T by (simp add: divide_right_mono)
  have "curve s (real j / real_of_int T) \<le> curve s (real i / real_of_int T)"
    using assms fraction_range [of i T] fraction_range [of j T] le
    by (intro curve_antimono) simp_all
  then have "curve s (real j / real_of_int T) / curve s 0 \<le> curve s (real i / real_of_int T) / curve s 0"
    using curve0_pos [OF assms(1)] by (simp add: divide_right_mono)
  then show ?thesis
    using assms by (simp add: closed_nth)
qed

lemma closed_pos:
  assumes "0 < s" "i < nat T"
  shows "0 < closed_schedule T s ! i"
proof -
  have "0 < curve s (real i / real_of_int T)"
    using assms fraction_range [of i T] by (intro curve_pos) simp_all
  then show ?thesis
    using assms curve0_pos [OF assms(1)] by (simp add: closed_nth)
qed

lemma closed_le_one:
  assumes "0 < s" "i < nat T"
  shows "closed_schedule T s ! i \<le> 1"
proof -
  have "0 < T"
    using assms by simp
  then have "closed_schedule T s ! 0 = 1"
    using assms by (intro closed_first)
  moreover have "closed_schedule T s ! i \<le> closed_schedule T s ! 0"
    using assms by (intro closed_mono) simp_all
  ultimately show ?thesis
    by simp
qed

lemma closed_sorted:
  assumes "0 < s"
  shows "sorted_wrt (\<lambda>a b. b \<le> a) (closed_schedule T s)"
  unfolding sorted_wrt_iff_nth_less
  using assms by (auto simp: closed_length intro: closed_mono)

lemma flip_nth:
  assumes "i < length xs"
  shows "flip xs ! i = xs ! (length xs - 1 - i)"
  using assms by (simp add: flip_def rev_nth)

lemma flip_sorted:
  assumes "sorted_wrt (\<lambda>a b. b \<le> a) xs"
  shows "sorted (flip (xs :: real list))"
proof -
  have "sorted_wrt (\<lambda>a b. a \<le> b) (rev xs)"
    using assms by (simp add: sorted_wrt_rev)
  then show ?thesis
    by (simp add: flip_def)
qed

subsection \<open>Length, first value and range of the schedule\<close>

text \<open>
  Claim C5. For positive \<open>timesteps\<close> and positive \<open>s\<close>, \<open>cosine_alphas_bar\<close> returns
  exactly \<open>timesteps\<close> values, the first of them is \<open>1\<close>, and every value lies in
  \<open>(0, 1]\<close>; in the flipped schedule the entry at index \<open>timesteps - 1\<close> is \<open>1\<close> and the
  entry at index \<open>0\<close> is the minimum of the schedule and is positive. The scenario
  \<open>timesteps = 1000\<close>, \<open>s = 0.008\<close> is the instance below.
\<close>

theorem schedule_length_first_range:
  assumes "0 < timesteps" "0 < s"
  shows "\<exists>sched. cosine_alphas_bar timesteps s = Inr sched
           \<and> length sched = nat timesteps
           \<and> sched ! 0 = 1
           \<and> (\<forall>v\<in>set sched. 0 < v \<and> v \<le> 1)
           \<and> flip sched ! (nat timesteps - 1) = 1
           \<and> (\<forall>v\<in>set sched. flip sched ! 0 \<le> v)
           \<and> 0 < flip sched ! 0"
proof -
  let ?c = "closed_schedule timesteps s"
  have n: "0 < nat timesteps"
    using assms by simp
  have len: "length ?c = nat timesteps"
    by (rule closed_length)
  have first: "?c ! 0 = 1"
    using assms by (rule closed_first)
  have range: "\<forall>v\<in>set ?c. 0 < v \<and> v \<le> 1"
    using assms(2) by (auto simp: in_set_conv_nth len intro: closed_pos closed_le_one)
  have last: "flip ?c ! (nat timesteps - 1) = 1"
    using n first by (simp add: flip_nth len)
  have f0: "flip ?c ! 0 = ?c ! (nat timesteps - 1)"
    using n by (simp add: flip_nth len)
  have "?c ! (nat timesteps - 1) \<le> ?c ! i" if "i < nat timesteps" for i
    using assms(2) that by (intro closed_mono) simp_all
  then have low: "\<forall>v\<in>set ?c. flip ?c ! 0 \<le> v"
    unfolding f0 by (auto simp: in_set_conv_nth len)
  have pos: "0 < flip ?c ! 0"
    unfolding f0 using assms(2) n by (intro closed_pos) simp_all
  show ?thesis
    using cosine_alphas_bar_eq [OF assms(1), of s] len first range last low pos by blast
qed

theorem schedule_length_first_range_witness:
  "\<exists>sched. cosine_alphas_bar 1000 0.008 = Inr sched
     \<and> length sched = 1000
     \<and> sched ! 0 = 1
     \<and> flip sched ! 999 = 1
     \<and> 0 < flip sched ! 0"
  using schedule_length_first_range [of 1000 "0.008"] by simp blast

subsection \<open>Monotonicity of the schedule\<close>

text \<open>
  Claim C4. For positive \<open>timesteps\<close> and positive \<open>s\<close> the schedule returned by
  \<open>cosine_alphas_bar\<close> is non-increasing; the flipped schedule is non-decreasing, its
  entry at index \<open>0\<close> is its minimum, and its last entry, at index \<open>timesteps - 1\<close>, is
  \<open>1\<close>. For the default \<open>s\<close> the flipped schedule is the tensor \<open>alphas\<close> that the
  training loop reads.
\<close>

theorem schedule_monotone:
  assumes "0 < timesteps" "0 < s"
  shows "\<exists>sched. cosine_alphas_bar timesteps s = Inr sched
           \<and> sorted_wrt (\<lambda>a b. b \<le> a) sched
           \<and> sorted (flip sched)
           \<and> (\<forall>v\<in>set (flip sched). flip sched ! 0 \<le> v)
           \<and> flip sched ! (nat timesteps - 1) = 1
           \<and> (s = default_s \<longrightarrow> alphas timesteps = Inr (flip sched))"
proof -
  let ?c = "closed_schedule timesteps s"
  have eq: "cosine_alphas_bar timesteps s = Inr ?c"
    using assms(1) by (rule cosine_alphas_bar_eq)
  have n: "0 < nat timesteps"
    using assms by simp
  have len: "length ?c = nat timesteps"
    by (rule closed_length)
  have dec: "sorted_wrt (\<lambda>a b. b \<le> a) ?c"
    using assms(2) by (rule closed_sorted)
  have inc: "sorted (flip ?c)"
    using dec by (rule flip_sorted)
  have ne: "flip ?c \<noteq> []"
    using n len by (auto simp: flip_def)
  have low: "\<forall>v\<in>set (flip ?c). flip ?c ! 0 \<le> v"
  proof
    fix v assume "v \<in> set (flip ?c)"
    then obtain i where "i < length (flip ?c)" "v = flip ?c ! i"
      by (auto simp: in_set_conv_nth)
    then show "flip ?c ! 0 \<le> v"
      using inc by (simp add: sorted_nth_mono)
  qed
  have last: "flip ?c ! (nat timesteps - 1) = 1"
    using n closed_first [OF assms] by (simp add: flip_nth len)
  have al: "s = default_s \<longrightarrow> alphas timesteps = Inr (flip ?c)"
    using eq by (auto simp: alphas_def)
  show ?thesis
    using eq dec inc low last al by blast
qed

theorem schedule_monotone_witness:
  "\<exists>sched. cosine_alphas_bar 1000 default_s = Inr sched
     \<and> sorted_wrt (\<lambda>a b. b \<le> a) sched
     \<and> sorted (flip sched)
     \<and> flip sched ! 999 = 1
     \<and> alphas 1000 = Inr (flip sched)"
  using schedule_monotone [of 1000 default_s] by (simp add: default_s_def) blast

subsection \<open>The code against the algorithm of the specification\<close>

lemma spec_value_curve: "spec_value steps s x = curve s (x / steps)"
  by (simp add: spec_value_def curve_def)

lemma evenly_spaced_points:
  assumes "0 < T"
  shows "evenly_spaced (nat T + 1) 0 (real (nat T + 1)) =
         map (\<lambda>i. real i * (real_of_int (T + 1) / real_of_int T)) [0..<nat (T + 1)]"
proof -
  have "real (nat T) = real_of_int T" and "nat (T + 1) = nat T + 1"
    using assms by simp_all
  then show ?thesis
    by (simp add: evenly_spaced_def mult.commute)
qed

lemma spec_vals:
  assumes "0 < T"
  shows "map (spec_value (real (nat T + 1)) s) (evenly_spaced (nat T + 1) 0 (real (nat T + 1))) =
         map (\<lambda>i. curve s (real i / real_of_int T)) [0..<nat (T + 1)]"
proof -
  have r: "real (nat T + 1) = real_of_int (T + 1)"
    using assms by simp
  have "map (spec_value (real (nat T + 1)) s) (evenly_spaced (nat T + 1) 0 (real (nat T + 1))) =
        map (spec_value (real (nat T + 1)) s)
          (map (\<lambda>i. real i * (real_of_int (T + 1) / real_of_int T)) [0..<nat (T + 1)])"
    by (simp only: evenly_spaced_points [OF assms])
  also have "\<dots> = map (\<lambda>i. curve s (real i * (real_of_int (T + 1) / real_of_int T) / real_of_int (T + 1)))
                     [0..<nat (T + 1)]"
    by (simp only: map_map o_def spec_value_curve r)
  also have "\<dots> = map (\<lambda>i. curve s (real i / real_of_int T)) [0..<nat (T + 1)]"
    by (simp only: point_fraction [OF assms])
  finally show ?thesis .
qed

lemma build_schedule_spec_closed:
  assumes "0 < T"
  shows "build_schedule_spec (nat T) s = closed_schedule T s"
proof -
  let ?vals = "map (\<lambda>i. curve s (real i / real_of_int T)) [0..<nat (T + 1)]"
  have up: "[0..<nat (T + 1)] = 0 # [1..<nat (T + 1)]"
    using assms by (simp add: upt_conv_Cons)
  have hd: "hd ?vals = curve s 0"
    by (subst up) simp
  have "take (nat T) (map (\<lambda>v. v / curve s 0) ?vals) = closed_schedule T s"
    using assms by (simp add: closed_schedule_def take_map o_def nat_add_distrib)
  then show ?thesis
    unfolding build_schedule_spec_def Let_def spec_vals [OF assms] hd .
qed

lemma evenly_spaced_shape:
  assumes "0 < n"
  shows "length (evenly_spaced (n + 1) a b) = n + 1"
    and "evenly_spaced (n + 1) a b ! 0 = a"
    and "evenly_spaced (n + 1) a b ! n = b"
    and "i < n \<Longrightarrow> evenly_spaced (n + 1) a b ! (i + 1) - evenly_spaced (n + 1) a b ! i = (b - a) / real n"
proof -
  show "length (evenly_spaced (n + 1) a b) = n + 1"
    by (simp add: evenly_spaced_def)
  show "evenly_spaced (n + 1) a b ! 0 = a"
    by (simp add: evenly_spaced_def nth_map_upt del: upt_Suc)
  show "evenly_spaced (n + 1) a b ! n = b"
    using assms by (simp add: evenly_spaced_def nth_map_upt del: upt_Suc)
  show "evenly_spaced (n + 1) a b ! (i + 1) - evenly_spaced (n + 1) a b ! i = (b - a) / real n" if "i < n"
    using that by (simp add: evenly_spaced_def nth_map_upt field_simps del: upt_Suc)
qed

text \<open>
  Claim C1. For positive \<open>timesteps\<close> and positive \<open>s\<close>, \<open>cosine_alphas_bar\<close> returns
  without error the sequence that the specification's algorithm describes: the points
  that \<open>linspace\<close> produces are the \<open>steps = timesteps + 1\<close> evenly spaced points over
  \<open>[0, steps]\<close> (there are \<open>steps\<close> of them, the first is \<open>0\<close>, the last is \<open>steps\<close>, and
  any two neighbours are the same distance apart), each point \<open>x\<close> is mapped to
  \<open>cos\<^sup>2(((x/steps + s)/(1 + s)) \<cdot> (\<pi>/2))\<close>, every entry is divided by the first, and
  the first \<open>timesteps\<close> entries are returned.
\<close>

theorem cosine_alphas_bar_follows_algorithm:
  assumes "0 < timesteps" "0 < s"
  shows "cosine_alphas_bar timesteps s = Inr (build_schedule_spec (nat timesteps) s)
       \<and> linspace 0 (real_of_int (timesteps + 1)) (timesteps + 1) =
           Inr (evenly_spaced (nat timesteps + 1) 0 (real (nat timesteps + 1)))
       \<and> length (evenly_spaced (nat timesteps + 1) 0 (real (nat timesteps + 1))) = nat timesteps + 1
       \<and> evenly_spaced (nat timesteps + 1) 0 (real (nat timesteps + 1)) ! 0 = 0
       \<and> evenly_spaced (nat timesteps + 1) 0 (real (nat timesteps + 1)) ! nat timesteps =
           real (nat timesteps + 1)
       \<and> (\<forall>i < nat timesteps.
             evenly_spaced (nat timesteps + 1) 0 (real (nat timesteps + 1)) ! (i + 1)
               - evenly_spaced (nat timesteps + 1) 0 (real (nat timesteps + 1)) ! i
             = real (nat timesteps + 1) / real (nat timesteps))"
proof -
  have n: "0 < nat timesteps"
    using assms by simp
  have "cosine_alphas_bar timesteps s = Inr (build_schedule_spec (nat timesteps) s)"
    using assms(1) by (simp add: cosine_alphas_bar_eq build_schedule_spec_closed)
  moreover have "linspace 0 (real_of_int (timesteps + 1)) (timesteps + 1) =
           Inr (evenly_spaced (nat timesteps + 1) 0 (real (nat timesteps + 1)))"
    using assms(1) by (simp only: linspace_points evenly_spaced_points)
  moreover note sh = evenly_spaced_shape [OF n, where a = 0 and b = "real (nat timesteps + 1)"]
  moreover have "\<forall>i < nat timesteps.
             evenly_spaced (nat timesteps + 1) 0 (real (nat timesteps + 1)) ! (i + 1)
               - evenly_spaced (nat timesteps + 1) 0 (real (nat timesteps + 1)) ! i
             = real (nat timesteps + 1) / real (nat timesteps)"
  proof (intro allI impI)
    fix i assume "i < nat timesteps"
    from sh(4) [OF this] show
      "evenly_spaced (nat timesteps + 1) 0 (real (nat timesteps + 1)) ! (i + 1)
               - evenly_spaced (nat timesteps + 1) 0 (real (nat timesteps + 1)) ! i
             = real (nat timesteps + 1) / real (nat timesteps)"
      by simp
  qed
  ultimately show ?thesis
    by (intro conjI)
qed

theorem cosine_alphas_bar_follows_algorithm_witness:
  "cosine_alphas_bar 1000 0.008 = Inr (build_schedule_spec 1000 0.008)
   \<and> linspace 0 1001 1001 = Inr (evenly_spaced 1001 0 1001)"
  using cosine_alphas_bar_follows_algorithm [of 1000 "0.008"] by simp

subsection \<open>Closed form of an entry\<close>

text \<open>
  Claim C10. For \<open>T > 0\<close>, \<open>s > 0\<close> and \<open>i < T\<close>: \<open>linspace(0, T + 1, T + 1)\<close> has
  \<open>T + 1\<close> points, its \<open>j\<close>-th point (\<open>j \<le> T\<close>) is \<open>j \<cdot> (T + 1) / T\<close>, so that the point
  divided by \<open>steps = T + 1\<close> is \<open>j / T\<close>; the \<open>i\<close>-th value of the schedule is
  \<open>cos\<^sup>2(((i/T + s)/(1 + s)) \<cdot> (\<pi>/2))\<close> divided by \<open>cos\<^sup>2((s/(1 + s)) \<cdot> (\<pi>/2))\<close>; the
  least value of the schedule is this expression at \<open>i = T - 1\<close>, and it is positive.
\<close>

theorem schedule_entry_closed_form:
  assumes "0 < T" "0 < s" "i < nat T"
  shows "\<exists>x sched.
           linspace 0 (real_of_int (T + 1)) (T + 1) = Inr x
         \<and> length x = nat T + 1
         \<and> (\<forall>j\<le>nat T. x ! j = real j * real_of_int (T + 1) / real_of_int T
                       \<and> x ! j / real_of_int (T + 1) = real j / real_of_int T)
         \<and> cosine_alphas_bar T s = Inr sched
         \<and> sched ! i = (cos (((real i / real_of_int T + s) / (1 + s)) * (pi / 2)))\<^sup>2
                        / (cos ((s / (1 + s)) * (pi / 2)))\<^sup>2
         \<and> sched ! (nat T - 1) =
             (cos (((real (nat T - 1) / real_of_int T + s) / (1 + s)) * (pi / 2)))\<^sup>2
               / (cos ((s / (1 + s)) * (pi / 2)))\<^sup>2
         \<and> (\<forall>v\<in>set sched. sched ! (nat T - 1) \<le> v)
         \<and> 0 < sched ! (nat T - 1)"
proof -
  let ?x = "map (\<lambda>i. real i * (real_of_int (T + 1) / real_of_int T)) [0..<nat (T + 1)]"
  let ?c = "closed_schedule T s"
  have n: "0 < nat T" and i1: "i < nat (T + 1)" and l1: "nat T - 1 < nat T"
    using assms by simp_all
  have lin: "linspace 0 (real_of_int (T + 1)) (T + 1) = Inr ?x"
    using assms(1) by (rule linspace_points)
  have lx: "length ?x = nat T + 1"
    using assms(1) by (simp add: nat_add_distrib)
  have grid: "?x ! j = real j * real_of_int (T + 1) / real_of_int T
              \<and> ?x ! j / real_of_int (T + 1) = real j / real_of_int T" if "j \<le> nat T" for j
  proof -
    have "j < nat (T + 1)"
      using that assms(1) by simp
    then have xj: "?x ! j = real j * (real_of_int (T + 1) / real_of_int T)"
      by (simp add: nth_map_upt del: of_int_add)
    then show ?thesis
      using point_fraction [OF assms(1), of j] by (simp del: of_int_add)
  qed
  have eq: "cosine_alphas_bar T s = Inr ?c"
    using assms(1) by (rule cosine_alphas_bar_eq)
  have form: "?c ! k = (cos (((real k / real_of_int T + s) / (1 + s)) * (pi / 2)))\<^sup>2
                        / (cos ((s / (1 + s)) * (pi / 2)))\<^sup>2" if "k < nat T" for k
    using that by (simp add: closed_nth curve_def)
  have "?c ! (nat T - 1) \<le> ?c ! k" if "k < nat T" for k
    using assms(2) that by (intro closed_mono) simp_all
  then have low: "\<forall>v\<in>set ?c. ?c ! (nat T - 1) \<le> v"
    by (auto simp: in_set_conv_nth closed_length)
  have pos: "0 < ?c ! (nat T - 1)"
    using assms(2) l1 by (rule closed_pos)
  show ?thesis
  proof (rule exI [where x = ?x], rule exI [where x = ?c], intro conjI)
    show "linspace 0 (real_of_int (T + 1)) (T + 1) = Inr ?x"
      by (rule lin)
    show "length ?x = nat T + 1"
      by (rule lx)
    show "\<forall>j\<le>nat T. ?x ! j = real j * real_of_int (T + 1) / real_of_int T
                       \<and> ?x ! j / real_of_int (T + 1) = real j / real_of_int T"
      using grid by blast
    show "cosine_alphas_bar T s = Inr ?c"
      by (rule eq)
    show "?c ! i = (cos (((real i / real_of_int T + s) / (1 + s)) * (pi / 2)))\<^sup>2
                        / (cos ((s / (1 + s)) * (pi / 2)))\<^sup>2"
      using assms(3) by (rule form)
    show "?c ! (nat T - 1) =
             (cos (((real (nat T - 1) / real_of_int T + s) / (1 + s)) * (pi / 2)))\<^sup>2
               / (cos ((s / (1 + s)) * (pi / 2)))\<^sup>2"
      using l1 by (rule form)
    show "\<forall>v\<in>set ?c. ?c ! (nat T - 1) \<le> v"
      by (rule low)
    show "0 < ?c ! (nat T - 1)"
      by (rule pos)
  qed
qed

theorem schedule_entry_closed_form_witness:
  "\<exists>x sched.
     linspace 0 1001 1001 = Inr x
   \<and> x ! 500 = 500 * 1001 / 1000
   \<and> cosine_alphas_bar 1000 0.008 = Inr sched
   \<and> sched ! 500 = (cos (((500 / 1000 + 0.008) / (1 + 0.008)) * (pi / 2)))\<^sup>2
                      / (cos ((0.008 / (1 + 0.008)) * (pi / 2)))\<^sup>2
   \<and> 0 < sched ! 999"
proof -
  have "0 < (1000::int)" "0 < (0.008::real)" "500 < nat 1000"
    by simp_all
  from schedule_entry_closed_form [OF this] obtain x sched where
    l: "linspace 0 (real_of_int (1000 + 1)) (1000 + 1) = Inr x"
    and g: "\<forall>j\<le>nat 1000. x ! j = real j * real_of_int (1000 + 1) / real_of_int 1000
                       \<and> x ! j / real_of_int (1000 + 1) = real j / real_of_int 1000"
    and c: "cosine_alphas_bar 1000 0.008 = Inr sched"
    and f: "sched ! 500 = (cos (((real 500 / real_of_int 1000 + 0.008) / (1 + 0.008)) * (pi / 2)))\<^sup>2
                        / (cos ((0.008 / (1 + 0.008)) * (pi / 2)))\<^sup>2"
    and p: "0 < sched ! (nat 1000 - 1)"
    by (elim exE conjE)
  from g [rule_format, of 500] have "x ! 500 = 500 * 1001 / 1000"
    by simp
  moreover from l have "linspace 0 1001 1001 = Inr x"
    by simp
  moreover from f have "sched ! 500 = (cos (((500 / 1000 + 0.008) / (1 + 0.008)) * (pi / 2)))\<^sup>2
                      / (cos ((0.008 / (1 + 0.008)) * (pi / 2)))\<^sup>2"
    by simp
  moreover from p have "0 < sched ! 999"
    by simp
  ultimately show ?thesis
    using c by (intro exI conjI)
qed

subsection \<open>Lookup and mixing\<close>

lemma tensor_index_in_range:
  assumes "\<forall>t\<in>set idx. 0 \<le> t \<and> t < int (length xs)"
  shows "tensor_index xs idx = Inr (map (\<lambda>t. xs ! nat t) idx)"
proof -
  have "list_all (\<lambda>i. - int (length xs) \<le> i \<and> i < int (length xs)) idx"
    using assms by (auto simp: list_all_iff)
  moreover have "map (\<lambda>i. xs ! nat (if i < 0 then int (length xs) + i else i)) idx =
                 map (\<lambda>t. xs ! nat t) idx"
    using assms by (intro map_cong) auto
  ultimately show ?thesis
    by (simp add: tensor_index_def Let_def)
qed

lemma tensor_index_single:
  "tensor_index xs [t] =
     (if - int (length xs) \<le> t \<and> t < int (length xs)
      then Inr [xs ! nat (if t < 0 then int (length xs) + t else t)]
      else Inl IndexError)"
  by (simp add: tensor_index_def Let_def)

lemma same_shape_length:
  assumes "same_shape xs ys"
  shows "length xs = length ys"
  using assms unfolding same_shape_def by (rule map_eq_imp_length_eq)

lemma same_shape_nth:
  assumes "same_shape xs ys" "b < length xs"
  shows "length (xs ! b) = length (ys ! b)"
proof -
  have "map length xs ! b = map length ys ! b"
    using assms(1) by (simp add: same_shape_def)
  then show ?thesis
    using assms same_shape_length [OF assms(1)] by simp
qed

lemma noise_input_length:
  assumes "length alpha_batch = length images" "same_shape images random_sample"
  shows "length (noise_input alpha_batch images random_sample) = length images"
  using assms same_shape_length [OF assms(2)] by (simp add: noise_input_def)

lemma noise_input_sample:
  assumes "length alpha_batch = length images" "same_shape images random_sample"
      and "b < length images"
  shows "noise_input alpha_batch images random_sample ! b =
         map (\<lambda>(x, n). signal_weight (alpha_batch ! b) * x + noise_weight (alpha_batch ! b) * n)
           (zip (images ! b) (random_sample ! b))"
  using assms same_shape_length [OF assms(2)] by (simp add: noise_input_def)

lemma noise_input_entry:
  assumes "length alpha_batch = length images" "same_shape images random_sample"
      and "b < length images" "k < length (images ! b)"
  shows "noise_input alpha_batch images random_sample ! b ! k =
         signal_weight (alpha_batch ! b) * images ! b ! k
           + noise_weight (alpha_batch ! b) * random_sample ! b ! k"
  using assms same_shape_nth [OF assms(2,3)]
  by (simp add: noise_input_sample)

lemma noise_input_shape:
  assumes "length alpha_batch = length images" "same_shape images random_sample"
  shows "same_shape (noise_input alpha_batch images random_sample) images"
proof -
  have "map length (noise_input alpha_batch images random_sample) = map length images"
  proof (rule nth_equalityI)
    show "length (map length (noise_input alpha_batch images random_sample)) = length (map length images)"
      using assms by (simp add: noise_input_length)
  next
    fix b assume "b < length (map length (noise_input alpha_batch images random_sample))"
    then have b: "b < length images"
      using assms by (simp add: noise_input_length)
    then show "map length (noise_input alpha_batch images random_sample) ! b = map length images ! b"
      using assms same_shape_nth [OF assms(2) b]
      by (simp add: noise_input_length noise_input_sample)
  qed
  then show ?thesis
    by (simp add: same_shape_def)
qed

lemma corruption_step_in_range:
  assumes "length rand_index = length images"
      and "\<forall>t\<in>set rand_index. 0 \<le> t \<and> t < int (length al)"
      and "same_shape images random_sample"
  shows "corruption_step al rand_index images random_sample =
         Inr (noise_input (map (\<lambda>t. al ! nat t) rand_index) images random_sample)"
  using assms by (simp add: corruption_step_def tensor_index_in_range)

lemma alphas_eq:
  assumes "0 < T"
  shows "alphas T = Inr (flip (closed_schedule T default_s))"
  using assms by (simp add: alphas_def cosine_alphas_bar_eq)

lemma default_s_pos: "0 < default_s"
  by (simp add: default_s_def)

lemma alphas_entry_range:
  assumes "0 < T" "0 \<le> t" "t < T"
  shows "0 < flip (closed_schedule T default_s) ! nat t"
    and "flip (closed_schedule T default_s) ! nat t \<le> 1"
proof -
  have t: "nat t < nat T" and i: "nat T - 1 - nat t < nat T"
    using assms by simp_all
  have nth: "flip (closed_schedule T default_s) ! nat t =
             closed_schedule T default_s ! (nat T - 1 - nat t)"
    using t by (simp add: flip_nth closed_length)
  show "0 < flip (closed_schedule T default_s) ! nat t"
    unfolding nth using default_s_pos i by (rule closed_pos)
  show "flip (closed_schedule T default_s) ! nat t \<le> 1"
    unfolding nth using default_s_pos i by (rule closed_le_one)
qed

lemma alphas_last:
  assumes "0 < T"
  shows "flip (closed_schedule T default_s) ! nat (T - 1) = 1"
proof -
  have "nat (T - 1) < nat T" and "nat T - 1 - nat (T - 1) = 0"
    using assms by simp_all
  then show ?thesis
    using closed_first [OF assms default_s_pos] by (simp add: flip_nth closed_length)
qed

lemma flip_length: "length (flip xs) = length xs"
  by (simp add: flip_def)

subsection \<open>The corruption step on in-range indices\<close>

text \<open>
  Claim C2. Let \<open>alphas\<close> be the tensor the script computes for a positive \<open>T\<close>: it is the
  reverse of the schedule \<open>cosine_alphas_bar T\<close> returns for the default \<open>s\<close>, so that its
  entry at index \<open>t\<close> is the entry of the schedule at index \<open>T - 1 - t\<close>. For every batch of
  clean samples, every index tensor with one index in \<open>[0, T)\<close> per sample and every
  noise tensor of the shape of the batch, the corruption step returns a tensor of that
  shape whose entry \<open>k\<close> of sample \<open>b\<close> is \<open>sqrt a \<cdot> x + sqrt (1 - a) \<cdot> noise\<close>, where \<open>a\<close>
  is the entry of \<open>alphas\<close> at the index of sample \<open>b\<close> (and \<open>0 < a \<le> 1\<close>, so both
  square roots are of non-negative numbers). When the clean samples are all zeros and
  the noise is all ones, every entry of sample \<open>b\<close> is \<open>sqrt (1 - a)\<close>.
\<close>

theorem corruption_step_formula:
  assumes "0 < T"
      and "length rand_index = length images"
      and "\<forall>t\<in>set rand_index. 0 \<le> t \<and> t < T"
      and "same_shape images random_sample"
  shows "\<exists>sched al out.
           cosine_alphas_bar T default_s = Inr sched
         \<and> length sched = nat T
         \<and> alphas T = Inr al
         \<and> al = rev sched
         \<and> corruption_step al rand_index images random_sample = Inr out
         \<and> same_shape out images
         \<and> (\<forall>b<length images.
               al ! nat (rand_index ! b) = sched ! (nat T - 1 - nat (rand_index ! b))
             \<and> 0 < al ! nat (rand_index ! b) \<and> al ! nat (rand_index ! b) \<le> 1
             \<and> (\<forall>k<length (images ! b).
                   out ! b ! k = sqrt (al ! nat (rand_index ! b)) * images ! b ! k
                                 + sqrt (1 - al ! nat (rand_index ! b)) * random_sample ! b ! k))
         \<and> ((\<forall>x\<in>set images. \<forall>v\<in>set x. v = 0) \<and> (\<forall>n\<in>set random_sample. \<forall>v\<in>set n. v = 1)
              \<longrightarrow> (\<forall>b<length images. \<forall>k<length (images ! b).
                     out ! b ! k = sqrt (1 - al ! nat (rand_index ! b))))"
proof -
  let ?sched = "closed_schedule T default_s"
  let ?al = "flip ?sched"
  let ?ab = "map (\<lambda>t. ?al ! nat t) rand_index"
  let ?out = "noise_input ?ab images random_sample"
  have sched: "cosine_alphas_bar T default_s = Inr ?sched"
    using assms(1) by (rule cosine_alphas_bar_eq)
  have lsched: "length ?sched = nat T"
    by (rule closed_length)
  have al: "alphas T = Inr ?al"
    using assms(1) by (rule alphas_eq)
  have rv: "?al = rev ?sched"
    by (simp add: flip_def)
  have len: "int (length ?al) = T"
    using assms(1) by (simp add: flip_length closed_length)
  have lab: "length ?ab = length images"
    using assms(2) by simp
  have step: "corruption_step ?al rand_index images random_sample = Inr ?out"
    using assms(2-4) by (intro corruption_step_in_range) (simp_all add: len)
  have shape: "same_shape ?out images"
    using lab assms(4) by (rule noise_input_shape)
  have entry: "?out ! b ! k = sqrt (?al ! nat (rand_index ! b)) * images ! b ! k
                                 + sqrt (1 - ?al ! nat (rand_index ! b)) * random_sample ! b ! k"
    if "b < length images" "k < length (images ! b)" for b k
    using noise_input_entry [OF lab assms(4) that] that(1) assms(2)
    by (simp add: signal_weight_def noise_weight_def)
  have inr: "0 \<le> rand_index ! b \<and> rand_index ! b < T" if "b < length images" for b
  proof -
    have "rand_index ! b \<in> set rand_index"
      using that assms(2) by simp
    then show ?thesis
      using assms(3) by auto
  qed
  have mirror: "?al ! nat (rand_index ! b) = ?sched ! (nat T - 1 - nat (rand_index ! b))"
    if "b < length images" for b
  proof -
    have "nat (rand_index ! b) < length ?sched"
      using inr [OF that] by (simp add: lsched)
    then show ?thesis
      by (simp add: flip_nth lsched)
  qed
  have range: "0 < ?al ! nat (rand_index ! b) \<and> ?al ! nat (rand_index ! b) \<le> 1"
    if "b < length images" for b
    using inr [OF that] alphas_entry_range [OF assms(1)] by simp
  have special: "?out ! b ! k = sqrt (1 - ?al ! nat (rand_index ! b))"
    if z: "\<forall>x\<in>set images. \<forall>v\<in>set x. v = 0" and o: "\<forall>n\<in>set random_sample. \<forall>v\<in>set n. v = 1"
      and b: "b < length images" and k: "k < length (images ! b)" for b k
  proof -
    have "images ! b ! k = 0"
      using z b k by (meson nth_mem)
    moreover have "b < length random_sample" "k < length (random_sample ! b)"
      using b k same_shape_length [OF assms(4)] same_shape_nth [OF assms(4) b] by simp_all
    then have "random_sample ! b ! k = 1"
      using o by (meson nth_mem)
    ultimately show ?thesis
      using entry [OF b k] by simp
  qed
  show ?thesis
  proof (rule exI [where x = ?sched], rule exI [where x = ?al], rule exI [where x = ?out],
      intro conjI)
    show "cosine_alphas_bar T default_s = Inr ?sched"
      by (rule sched)
    show "length ?sched = nat T"
      by (rule lsched)
    show "alphas T = Inr ?al"
      by (rule al)
    show "?al = rev ?sched"
      by (rule rv)
    show "corruption_step ?al rand_index images random_sample = Inr ?out"
      by (rule step)
    show "same_shape ?out images"
      by (rule shape)
    show "\<forall>b<length images.
               ?al ! nat (rand_index ! b) = ?sched ! (nat T - 1 - nat (rand_index ! b))
             \<and> 0 < ?al ! nat (rand_index ! b) \<and> ?al ! nat (rand_index ! b) \<le> 1
             \<and> (\<forall>k<length (images ! b).
                   ?out ! b ! k = sqrt (?al ! nat (rand_index ! b)) * images ! b ! k
                                 + sqrt (1 - ?al ! nat (rand_index ! b)) * random_sample ! b ! k)"
      using mirror range entry by simp
    show "(\<forall>x\<in>set images. \<forall>v\<in>set x. v = 0) \<and> (\<forall>n\<in>set random_sample. \<forall>v\<in>set n. v = 1)
              \<longrightarrow> (\<forall>b<length images. \<forall>k<length (images ! b).
                     ?out ! b ! k = sqrt (1 - ?al ! nat (rand_index ! b)))"
      using special by simp
  qed
qed

theorem corruption_step_formula_witness:
  "\<exists>sched al out.
     cosine_alphas_bar 1000 default_s = Inr sched
   \<and> alphas 1000 = Inr al
   \<and> al = rev sched
   \<and> al ! 500 = sched ! 499
   \<and> corruption_step al [500] [replicate 16 0] [replicate 16 1] = Inr out
   \<and> same_shape out [replicate 16 0]
   \<and> out ! 0 ! 0 = sqrt (1 - al ! 500)
   \<and> out ! 0 ! 15 = sqrt (1 - al ! 500)"
proof -
  have "0 < (1000::int)" "length [500::int] = length [replicate 16 (0::real)]"
    "\<forall>t\<in>set [500::int]. 0 \<le> t \<and> t < 1000"
    "same_shape [replicate 16 0] [replicate 16 1]"
    by (simp_all add: same_shape_def)
  from corruption_step_formula [OF this] obtain sched al out where
    c: "cosine_alphas_bar 1000 default_s = Inr sched"
    and a: "alphas 1000 = Inr al"
    and r: "al = rev sched"
    and s: "corruption_step al [500] [replicate 16 0] [replicate 16 1] = Inr out"
    and h: "same_shape out [replicate 16 0]"
    and m: "\<forall>b<length [replicate 16 (0::real)].
               al ! nat ([500] ! b) = sched ! (nat 1000 - 1 - nat ([500] ! b))
             \<and> 0 < al ! nat ([500] ! b) \<and> al ! nat ([500] ! b) \<le> 1
             \<and> (\<forall>k<length ([replicate 16 (0::real)] ! b).
                   out ! b ! k = sqrt (al ! nat ([500] ! b)) * [replicate 16 0] ! b ! k
                                 + sqrt (1 - al ! nat ([500] ! b)) * [replicate 16 1] ! b ! k)"
    and z: "(\<forall>x\<in>set [replicate 16 (0::real)]. \<forall>v\<in>set x. v = 0)
             \<and> (\<forall>n\<in>set [replicate 16 (1::real)]. \<forall>v\<in>set n. v = 1)
            \<longrightarrow> (\<forall>b<length [replicate 16 (0::real)]. \<forall>k<length ([replicate 16 (0::real)] ! b).
                   out ! b ! k = sqrt (1 - al ! nat ([500] ! b)))"
    by (elim exE conjE)
  from m [rule_format, of 0] have i: "al ! 500 = sched ! 499"
    by simp
  from z have "\<forall>b<Suc 0. \<forall>k<16. out ! b ! k = sqrt (1 - al ! nat ([500] ! b))"
    by simp
  then have "out ! 0 ! 0 = sqrt (1 - al ! 500)" "out ! 0 ! 15 = sqrt (1 - al ! 500)"
    by simp_all
  then show ?thesis
    using c a r i s h by (intro exI conjI)
qed

subsection \<open>The corruption step at the cleanest index\<close>

text \<open>
  Claim C6. In the flipped schedule for a positive \<open>T\<close> the entry at index \<open>T - 1\<close> is
  \<open>1\<close>; and whenever every sample of a batch is given an in-range index whose entry is
  \<open>1\<close>, the corruption step returns the clean batch itself, whatever the noise is.
\<close>

theorem corruption_identity_at_cleanest_index:
  assumes "0 < T"
  shows "\<exists>al. alphas T = Inr al
           \<and> al ! nat (T - 1) = 1
           \<and> (\<forall>rand_index images random_sample.
                 length rand_index = length images
               \<and> same_shape images random_sample
               \<and> (\<forall>t\<in>set rand_index. 0 \<le> t \<and> t < T \<and> al ! nat t = 1)
               \<longrightarrow> corruption_step al rand_index images random_sample = Inr images)"
proof -
  let ?al = "flip (closed_schedule T default_s)"
  have al: "alphas T = Inr ?al"
    using assms by (rule alphas_eq)
  have len: "int (length ?al) = T"
    using assms by (simp add: flip_length closed_length)
  have last: "?al ! nat (T - 1) = 1"
    using assms by (rule alphas_last)
  have id: "corruption_step ?al rand_index images random_sample = Inr images"
    if l: "length rand_index = length images" and sh: "same_shape images random_sample"
      and one: "\<forall>t\<in>set rand_index. 0 \<le> t \<and> t < T \<and> ?al ! nat t = 1"
    for rand_index images random_sample
  proof -
    let ?ab = "map (\<lambda>t. ?al ! nat t) rand_index"
    have lab: "length ?ab = length images"
      using l by simp
    have step: "corruption_step ?al rand_index images random_sample =
                Inr (noise_input ?ab images random_sample)"
      using l one sh by (intro corruption_step_in_range) (simp_all add: len)
    have "noise_input ?ab images random_sample = images"
    proof (rule nth_equalityI)
      show "length (noise_input ?ab images random_sample) = length images"
        using lab sh by (rule noise_input_length)
    next
      fix b assume "b < length (noise_input ?ab images random_sample)"
      then have b: "b < length images"
        using lab sh by (simp add: noise_input_length)
      then have "rand_index ! b \<in> set rand_index"
        using l by simp
      then have a1: "?ab ! b = 1"
        using one b l by simp
      have lb: "length (images ! b) = length (random_sample ! b)"
        using sh b by (rule same_shape_nth)
      have "map (\<lambda>(x, n). signal_weight 1 * x + noise_weight 1 * n)
              (zip (images ! b) (random_sample ! b)) = images ! b"
        using lb by (intro nth_equalityI) (simp_all add: signal_weight_def noise_weight_def)
      then show "noise_input ?ab images random_sample ! b = images ! b"
        using noise_input_sample [OF lab sh b] a1 by simp
    qed
    then show ?thesis
      using step by simp
  qed
  show ?thesis
  proof (rule exI [where x = ?al], intro conjI allI impI)
    show "alphas T = Inr ?al"
      by (rule al)
    show "?al ! nat (T - 1) = 1"
      by (rule last)
    show "corruption_step ?al rand_index images random_sample = Inr images"
      if "length rand_index = length images
               \<and> same_shape images random_sample
               \<and> (\<forall>t\<in>set rand_index. 0 \<le> t \<and> t < T \<and> ?al ! nat t = 1)"
      for rand_index images random_sample
      using that by (intro id) simp_all
  qed
qed

theorem corruption_identity_at_cleanest_index_witness:
  "\<exists>al. alphas 1000 = Inr al
     \<and> al ! 999 = 1
     \<and> corruption_step al [999] [[3, - 2]] [[5, 7]] = Inr [[3, - 2]]"
proof -
  have "0 < (1000::int)"
    by simp
  from corruption_identity_at_cleanest_index [OF this] obtain al where
    a: "alphas 1000 = Inr al" and l: "al ! nat (1000 - 1) = 1"
    and i: "\<forall>rand_index images random_sample.
                 length rand_index = length images
               \<and> same_shape images random_sample
               \<and> (\<forall>t\<in>set rand_index. 0 \<le> t \<and> t < 1000 \<and> al ! nat t = 1)
               \<longrightarrow> corruption_step al rand_index images random_sample = Inr images"
    by (elim exE conjE)
  have l9: "al ! 999 = 1"
    using l by simp
  have "length [999::int] = length [[3, - 2 :: real]]
        \<and> same_shape [[3, - 2]] [[5, 7]]
        \<and> (\<forall>t\<in>set [999::int]. 0 \<le> t \<and> t < 1000 \<and> al ! nat t = 1)"
    using l9 by (simp add: same_shape_def)
  then have "corruption_step al [999] [[3, - 2]] [[5, 7]] = Inr [[3, - 2]]"
    by (rule i [rule_format])
  then show ?thesis
    using a l9 by (intro exI conjI)
qed

subsection \<open>The mixing weights\<close>

text \<open>
  Claim C7. For \<open>a\<close> in \<open>(0, 1]\<close> the squares of the two weights of the corruption step,
  \<open>sqrt a\<close> and \<open>sqrt (1 - a)\<close>, are \<open>a\<close> and \<open>1 - a\<close> and sum to \<open>1\<close>; these are the
  weights with which \<open>noise_input\<close> mixes a clean entry \<open>x\<close> and a noise entry \<open>n\<close>.
\<close>

theorem mixing_weights_squares_sum_to_one:
  assumes "0 < a" "a \<le> 1"
  shows "(signal_weight a)\<^sup>2 + (noise_weight a)\<^sup>2 = 1
       \<and> (signal_weight a)\<^sup>2 = a
       \<and> (noise_weight a)\<^sup>2 = 1 - a
       \<and> noise_input [a] [[x]] [[n]] = [[signal_weight a * x + noise_weight a * n]]"
  using assms by (simp add: signal_weight_def noise_weight_def noise_input_def)

theorem mixing_weights_squares_sum_to_one_witness:
  "(signal_weight (1 / 4))\<^sup>2 + (noise_weight (1 / 4))\<^sup>2 = 1
   \<and> (signal_weight (1 / 4))\<^sup>2 = 1 / 4
   \<and> (noise_weight (1 / 4))\<^sup>2 = 1 - 1 / 4"
  using mixing_weights_squares_sum_to_one [of "1 / 4"] by simp

subsection \<open>Indices outside the schedule and a schedule of no steps\<close>

lemma cosine_alphas_bar_zero: "cosine_alphas_bar 0 s = Inr []"
  by (simp add: cosine_alphas_bar_def linspace_def slice_to_def)

lemma alphas_one: "alphas 1 = Inr [1]"
proof -
  have "closed_schedule 1 default_s = [1]"
    using curve0_pos [OF default_s_pos] by (simp add: closed_schedule_def)
  then show ?thesis
    by (simp add: alphas_eq flip_def)
qed

lemma noise_input_one:
  assumes "length x = length n"
  shows "noise_input [1] [x] [n] = [x]"
proof -
  have "map (\<lambda>(x, n). signal_weight 1 * x + noise_weight 1 * n) (zip x n) = x"
    using assms by (intro nth_equalityI) (simp_all add: signal_weight_def noise_weight_def)
  then show ?thesis
    by (simp add: noise_input_def)
qed

text \<open>
  Claim C3 says that the corruption step with \<open>t = - 1\<close> fails with an index error and
  that the schedule for \<open>timesteps = 0\<close> fails with a configuration error. Neither call
  fails: with the one-entry schedule \<open>alphas 1 = [1]\<close>, the index \<open>- 1\<close> reads the last
  entry and the step returns the sample; and \<open>cosine_alphas_bar 0\<close> returns the empty
  sequence.
\<close>

theorem boundary_rejection_counterexample:
  "alphas 1 = Inr [1]
   \<and> corruption_step [1] [- 1] [[3]] [[5]] = Inr [[3]]
   \<and> cosine_alphas_bar 0 default_s = Inr []"
  using noise_input_one [of "[3]" "[5]"]
  by (simp add: alphas_one cosine_alphas_bar_zero corruption_step_def tensor_index_single
      same_shape_def)

text \<open>
  Claim C3 as amended. For a positive \<open>T\<close> and a sample \<open>x\<close> with noise \<open>n\<close> of the same
  length: the lookup raises IndexError for \<open>t = T\<close>, and for every \<open>t \<ge> T\<close> or \<open>t < - T\<close>;
  an index \<open>t\<close> in \<open>[- T, 0)\<close> does not fail and reads the entry at \<open>T + t\<close>, so that
  \<open>t = - 1\<close> reads the last entry, which is \<open>1\<close>, and the step returns \<open>x\<close>;
  \<open>cosine_alphas_bar 0 s\<close> returns the empty sequence without error.
\<close>

theorem index_boundaries_as_coded:
  assumes "0 < T" "length x = length n"
  shows "cosine_alphas_bar 0 s = Inr []
       \<and> (\<exists>al. alphas T = Inr al
            \<and> (\<forall>t. t < - T \<or> T \<le> t \<longrightarrow> corruption_step al [t] [x] [n] = Inl IndexError)
            \<and> (\<forall>t. - T \<le> t \<and> t < 0 \<longrightarrow>
                   corruption_step al [t] [x] [n] = corruption_step al [T + t] [x] [n])
            \<and> corruption_step al [T] [x] [n] = Inl IndexError
            \<and> corruption_step al [- 1] [x] [n] = Inr [x])"
proof -
  let ?al = "flip (closed_schedule T default_s)"
  have al: "alphas T = Inr ?al"
    using assms(1) by (rule alphas_eq)
  have len: "int (length ?al) = T"
    using assms(1) by (simp add: flip_length closed_length)
  have out: "corruption_step ?al [t] [x] [n] = Inl IndexError" if "t < - T \<or> T \<le> t" for t
    using that by (auto simp: corruption_step_def tensor_index_single len)
  have wrap: "corruption_step ?al [t] [x] [n] = corruption_step ?al [T + t] [x] [n]"
    if "- T \<le> t \<and> t < 0" for t
    using that by (simp add: corruption_step_def tensor_index_single len)
  have "tensor_index ?al [- 1] = Inr [?al ! nat (T - 1)]"
    using assms(1) by (simp add: tensor_index_single len)
  then have "tensor_index ?al [- 1] = Inr [1]"
    using alphas_last [OF assms(1)] by simp
  then have minus: "corruption_step ?al [- 1] [x] [n] = Inr [x]"
    using assms(2) by (simp add: corruption_step_def same_shape_def noise_input_one)
  show ?thesis
  proof (intro conjI, rule cosine_alphas_bar_zero, rule exI [where x = ?al], intro conjI allI impI)
    show "alphas T = Inr ?al"
      by (rule al)
    show "corruption_step ?al [t] [x] [n] = Inl IndexError" if "t < - T \<or> T \<le> t" for t
      using that by (rule out)
    show "corruption_step ?al [t] [x] [n] = corruption_step ?al [T + t] [x] [n]"
      if "- T \<le> t \<and> t < 0" for t
      using that by (rule wrap)
    show "corruption_step ?al [T] [x] [n] = Inl IndexError"
      by (rule out) simp
    show "corruption_step ?al [- 1] [x] [n] = Inr [x]"
      by (rule minus)
  qed
qed

theorem index_boundaries_as_coded_witness:
  "cosine_alphas_bar 0 0.008 = Inr []
   \<and> (\<exists>al. alphas 1000 = Inr al
        \<and> corruption_step al [1000] [[3, - 2]] [[5, 7]] = Inl IndexError
        \<and> corruption_step al [- 1] [[3, - 2]] [[5, 7]] = corruption_step al [999] [[3, - 2]] [[5, 7]]
        \<and> corruption_step al [- 1] [[3, - 2]] [[5, 7]] = Inr [[3, - 2]])"
proof -
  have h: "0 < (1000::int)" "length [3, - 2 :: real] = length [5, 7 :: real]"
    by simp_all
  note th = index_boundaries_as_coded [OF h, of "0.008"]
  from th have z: "cosine_alphas_bar 0 0.008 = Inr []"
    by (elim conjE)
  from th obtain al where
    a: "alphas 1000 = Inr al"
    and w: "\<forall>t. - 1000 \<le> t \<and> t < 0 \<longrightarrow>
              corruption_step al [t] [[3, - 2]] [[5, 7]] = corruption_step al [1000 + t] [[3, - 2]] [[5, 7]]"
    and e: "corruption_step al [1000] [[3, - 2]] [[5, 7]] = Inl IndexError"
    and m: "corruption_step al [- 1] [[3, - 2]] [[5, 7]] = Inr [[3, - 2]]"
    by (elim exE conjE)
  from w [rule_format, of "- 1"] have
    "corruption_step al [- 1] [[3, - 2]] [[5, 7]] = corruption_step al [999] [[3, - 2]] [[5, 7]]"
    by simp
  then show ?thesis
    using z a e m by (intro exI conjI)
qed

subsection \<open>Determinism of the schedule\<close>




subsection \<open>Epochs below resume\_epoch\<close>

lemma epoch_body_skip:
  assumes "epoch < resume_epoch"
  shows "epoch_body c T al resume_epoch st epoch =
         Inr (st\<lparr>printed := printed st @ [SkippingEpoch epoch]\<rparr>)"
  using assms by (simp add: epoch_body_def)

lemma epoch_loop_skip:
  assumes "\<forall>e\<in>set es. e < resume_epoch"
  shows "epoch_loop c T al resume_epoch st es =
         Inr (st\<lparr>printed := printed st @ map SkippingEpoch es\<rparr>)"
  using assms
proof (induction es arbitrary: st)
  case Nil
  then show ?case by simp
next
  case (Cons e es)
  then show ?case
    by (simp add: epoch_body_skip)
qed

lemma epoch_loop_append:
  "epoch_loop c T al resume_epoch st (xs @ ys) =
     (case epoch_loop c T al resume_epoch st xs of
        Inl e \<Rightarrow> Inl e
      | Inr st' \<Rightarrow> epoch_loop c T al resume_epoch st' ys)"
  by (induction xs arbitrary: st) (simp_all split: sum.splits)

lemma trange_split:
  "trange n = trange (min r n) @ map int [nat (min r n)..<nat n]"
proof -
  have "nat (min r n) \<le> nat n"
    by simp
  then have "[0..<nat n] = [0..<nat (min r n)] @ [nat (min r n)..<nat n]"
    by (metis le_add_diff_inverse upt_add_eq_append zero_le)
  then show ?thesis
    by (simp add: trange_def)
qed

lemma trange_below:
  "\<forall>e\<in>set (trange (min r n)). e < r"
  by (auto simp: trange_def)

lemma epoch_loop_resume:
  "epoch_loop c T al resume_epoch st (trange train_epoch) =
   epoch_loop c T al resume_epoch
     (st\<lparr>printed := printed st @ map SkippingEpoch (trange (min resume_epoch train_epoch))\<rparr>)
     (map int [nat (min resume_epoch train_epoch)..<nat train_epoch])"
  by (subst trange_split [of train_epoch resume_epoch])
     (simp add: epoch_loop_append epoch_loop_skip [OF trange_below])

text \<open>
  Claim C9. An iteration of the epoch loop with \<open>epoch < resume_epoch\<close> only prints its
  "Skipping epoch" line: the network, the optimizer, the scheduler, the generator,
  \<open>loss_log\<close>, \<open>mean_loss\<close> and the checkpoint file are what they were, for any
  collaborators. The loop over \<open>trange train_epoch\<close> visits every index: it prints one
  such line for each index below \<open>resume_epoch\<close> and then continues, from an otherwise
  unchanged state, with the remaining indices; so does the script when it resumes from
  a checkpoint that stores \<open>resume_epoch\<close>.
\<close>

theorem skipped_epochs_change_nothing:
  assumes "epoch < resume_epoch"
  shows "epoch_body c T al resume_epoch st epoch =
           Inr (st\<lparr>printed := printed st @ [SkippingEpoch epoch]\<rparr>)
       \<and> (\<exists>st'. epoch_body c T al resume_epoch st epoch = Inr st'
             \<and> u_net st' = u_net st \<and> optimizer st' = optimizer st
             \<and> lr_schedule st' = lr_schedule st \<and> rng st' = rng st
             \<and> loss_log st' = loss_log st \<and> mean_loss st' = mean_loss st
             \<and> checkpoint_file st' = checkpoint_file st)
       \<and> epoch_loop c T al resume_epoch st (trange train_epoch) =
           epoch_loop c T al resume_epoch
             (st\<lparr>printed := printed st @ map SkippingEpoch (trange (min resume_epoch train_epoch))\<rparr>)
             (map int [nat (min resume_epoch train_epoch)..<nat train_epoch])
       \<and> (checkpoint_file st = Some (resume_epoch, m, opt) \<longrightarrow>
            training c T train_epoch True st =
              (case alphas T of
                 Inl e \<Rightarrow> Inl e
               | Inr alphas_t \<Rightarrow>
                   epoch_loop c T alphas_t resume_epoch
                     (st\<lparr>optimizer := opt, loss_log := [], mean_loss := 0,
                         u_net := set_train c m,
                         printed := printed st @ [PickingUp, WillResume resume_epoch] @
                           map SkippingEpoch (trange (min resume_epoch train_epoch))\<rparr>)
                     (map int [nat (min resume_epoch train_epoch)..<nat train_epoch])))"
proof (intro conjI)
  show "epoch_body c T al resume_epoch st epoch =
           Inr (st\<lparr>printed := printed st @ [SkippingEpoch epoch]\<rparr>)"
    using assms by (rule epoch_body_skip)
  then show "\<exists>st'. epoch_body c T al resume_epoch st epoch = Inr st'
             \<and> u_net st' = u_net st \<and> optimizer st' = optimizer st
             \<and> lr_schedule st' = lr_schedule st \<and> rng st' = rng st
             \<and> loss_log st' = loss_log st \<and> mean_loss st' = mean_loss st
             \<and> checkpoint_file st' = checkpoint_file st"
    by simp
  show "epoch_loop c T al resume_epoch st (trange train_epoch) =
           epoch_loop c T al resume_epoch
             (st\<lparr>printed := printed st @ map SkippingEpoch (trange (min resume_epoch train_epoch))\<rparr>)
             (map int [nat (min resume_epoch train_epoch)..<nat train_epoch])"
    by (rule epoch_loop_resume)
  show "checkpoint_file st = Some (resume_epoch, m, opt) \<longrightarrow>
            training c T train_epoch True st =
              (case alphas T of
                 Inl e \<Rightarrow> Inl e
               | Inr alphas_t \<Rightarrow>
                   epoch_loop c T alphas_t resume_epoch
                     (st\<lparr>optimizer := opt, loss_log := [], mean_loss := 0,
                         u_net := set_train c m,
                         printed := printed st @ [PickingUp, WillResume resume_epoch] @
                           map SkippingEpoch (trange (min resume_epoch train_epoch))\<rparr>)
                     (map int [nat (min resume_epoch train_epoch)..<nat train_epoch]))"
    by (simp add: training_def reload_def
        epoch_loop_resume [of c T _ resume_epoch _ train_epoch] split: sum.splits)
qed

theorem skipped_epochs_change_nothing_witness:
  "epoch_body counting_collaborators 1 [1] 2 fresh_state 0 =
     Inr (fresh_state\<lparr>printed := [SkippingEpoch 0]\<rparr>)
   \<and> epoch_loop counting_collaborators 1 [1] 2 fresh_state (trange 3) =
       Inr \<lparr>u_net = 1, optimizer = (), lr_schedule = (), rng = (), loss_log = [1],
            mean_loss = 1, checkpoint_file = Some (2, 1, ()),
            printed = [SkippingEpoch 0, SkippingEpoch 1, EpochRunning 2, LossPostfix 0,
                       ValidationLoss 1, ModelSaved]\<rparr>
   \<and> training counting_collaborators 1 3 True
         (fresh_state\<lparr>checkpoint_file := Some (2, 5, ())\<rparr>) =
       Inr \<lparr>u_net = 6, optimizer = (), lr_schedule = (), rng = (), loss_log = [1],
            mean_loss = 1, checkpoint_file = Some (2, 6, ()),
            printed = [PickingUp, WillResume 2, SkippingEpoch 0, SkippingEpoch 1,
                       EpochRunning 2, LossPostfix 0, ValidationLoss 1, ModelSaved]\<rparr>"
proof -
  have h: "(0::int) < 2"
    by simp
  note th = skipped_epochs_change_nothing [OF h, of counting_collaborators 1 "[1]" fresh_state 3 5 "()"]
  have r: "map int [nat (min 2 3)..<nat 3] = [2]" "trange (min 2 3) = [0, 1]"
    "trange 2 = [0, 1]" "[2..<3] = [2::nat]"
    by (simp_all add: trange_def upt_conv_Cons)
  have run: "run_epoch counting_collaborators 1 [1] st 2 =
             Inr (st\<lparr>u_net := Suc (u_net st), loss_log := [1], mean_loss := 1,
                     checkpoint_file := Some (2, Suc (u_net st), ()),
                     printed := printed st @ [EpochRunning 2, LossPostfix (mean_loss st),
                                              ValidationLoss 1, ModelSaved]\<rparr>)"
    if "loss_log st = []" for st :: "(nat, unit, unit, unit) run_state"
    using that
    by (simp add: run_epoch_def train_iteration_def counting_collaborators_def
        corruption_step_def tensor_index_single same_shape_def noise_input_def
        signal_weight_def noise_weight_def)
  have tr: "set_train counting_collaborators k = k" for k
    by (simp add: counting_collaborators_def)
  from th have "epoch_body counting_collaborators 1 [1] 2 fresh_state 0 =
     Inr (fresh_state\<lparr>printed := [SkippingEpoch 0]\<rparr>)"
    by (simp add: fresh_state_def)
  moreover from th have "epoch_loop counting_collaborators 1 [1] 2 fresh_state (trange 3) =
       Inr \<lparr>u_net = 1, optimizer = (), lr_schedule = (), rng = (), loss_log = [1],
            mean_loss = 1, checkpoint_file = Some (2, 1, ()),
            printed = [SkippingEpoch 0, SkippingEpoch 1, EpochRunning 2, LossPostfix 0,
                       ValidationLoss 1, ModelSaved]\<rparr>"
    by (simp add: r epoch_body_def run fresh_state_def)
  moreover have "training counting_collaborators 1 3 True
         (fresh_state\<lparr>checkpoint_file := Some (2, 5, ())\<rparr>) =
       Inr \<lparr>u_net = 6, optimizer = (), lr_schedule = (), rng = (), loss_log = [1],
            mean_loss = 1, checkpoint_file = Some (2, 6, ()),
            printed = [PickingUp, WillResume 2, SkippingEpoch 0, SkippingEpoch 1,
                       EpochRunning 2, LossPostfix 0, ValidationLoss 1, ModelSaved]\<rparr>"
    using skipped_epochs_change_nothing [OF h, of counting_collaborators 1 "[1]"
        "fresh_state\<lparr>checkpoint_file := Some (2, 5, ())\<rparr>" 3 5 "()"]
    by (simp add: r alphas_one epoch_body_def run fresh_state_def tr)
  ultimately show ?thesis
    by (intro conjI)
qed

end
